theory Spec2Isabelle
  imports Main "HOL-Library.Word"
begin

unbundle bit_operations_syntax

section \<open>The software surface buffer of ui/cairo.c\<close>

subsection \<open>Data\<close>

text \<open>
  The header cairo.h is not among the sources, so the types it declares are read off their
  uses in cairo.c. The two anchor enumerations have the three enumerators each that
  \<open>xanchor_to_str\<close>, \<open>yanchor_to_str\<close> and the \<open>switch\<close> statements of
  \<open>swbuf_calculate_placement\<close> name. Coordinates and offsets are printed with \<open>%d\<close>
  and mixed with \<open>unsigned int\<close> operands, so they are taken as 32-bit machine integers:
  \<open>+\<close>, \<open>-\<close> wrap modulo \<open>2 ^ 32\<close>, \<open>div\<close> is the unsigned division, and
  \<open>sint\<close> gives the signed reading of a coordinate.
\<close>

datatype xanchor_t = XPOS_LEFT | XPOS_CENTER | XPOS_RIGHT

datatype yanchor_t = YPOS_TOP | YPOS_CENTER | YPOS_BOTTOM

record anchor_t =
  anchor_x :: xanchor_t
  anchor_y :: yanchor_t

record anchored_placement_t =
  src_anchor :: anchor_t
  dst_anchor :: anchor_t
  xoffset :: "32 word"
  yoffset :: "32 word"

record coord_t =
  coord_x :: "32 word"
  coord_y :: "32 word"

record placement_t =
  top_left :: coord_t
  bottom_right :: coord_t

text \<open>
  A pointer is \<open>None\<close> (the null pointer) or the address of an object. A
  \<open>cairo_swbuf_t\<close> holds its dimensions and the pointers to the cairo image surface and to
  the cairo drawing context.
\<close>

type_synonym ptr = nat

record cairo_swbuf_t =
  width :: "32 word"
  height :: "32 word"
  surface :: "ptr option"
  ctx :: "ptr option"

text \<open>
  What a \<open>cairo_surface_t *\<close> points to. The cairo library is not part of the program;
  by its documentation \<open>cairo_image_surface_create\<close> always returns a valid pointer, to
  an image surface with its pixel array (one 32-bit ARGB word per pixel, row after row)
  or, when it fails, to an error surface, which has no pixels.
\<close>

datatype cairo_surface = ErrorSurface | ImageSurface "32 word list"

text \<open>
  The heap: the blocks obtained from \<open>calloc\<close> that hold a \<open>cairo_swbuf_t\<close>, the
  cairo surfaces, and the cairo contexts with the surface each one draws on.
\<close>

record heap =
  swbufs :: "ptr \<rightharpoonup> cairo_swbuf_t"
  surfaces :: "ptr \<rightharpoonup> cairo_surface"
  contexts :: "ptr \<rightharpoonup> ptr"

text \<open>
  What the library does on one call of \<open>cairo_image_surface_create\<close> is decided outside
  the program: it returns an image surface at some address, or an error surface at some
  address (out of memory, for one). The null pointer, which the code tests for, is what
  the pointer type admits besides; the library's documentation rules it out.
\<close>

datatype surface_outcome = ReturnsNull | ReturnsError ptr | ReturnsImage ptr

datatype fault = InvalidPointer | OutOfBounds

subsection \<open>Operations\<close>

text \<open>\<open>cairo_destroy\<close> and \<open>cairo_surface_destroy\<close> accept the null pointer and do nothing.\<close>

definition cairo_destroy :: "ptr option \<Rightarrow> heap \<Rightarrow> heap" where
  "cairo_destroy c hp =
     (case c of None \<Rightarrow> hp | Some p \<Rightarrow> hp\<lparr>contexts := (contexts hp)(p := None)\<rparr>)"

definition cairo_surface_destroy :: "ptr option \<Rightarrow> heap \<Rightarrow> heap" where
  "cairo_surface_destroy s hp =
     (case s of None \<Rightarrow> hp | Some p \<Rightarrow> hp\<lparr>surfaces := (surfaces hp)(p := None)\<rparr>)"

text \<open>
  \<open>free_swbuf\<close>: returns at once on the null pointer; otherwise destroys the context and the
  surface of the buffer and frees the block. A pointer that is neither null nor a live
  buffer is a fault (undefined behaviour in C).
\<close>

definition free_swbuf :: "ptr option \<Rightarrow> heap \<Rightarrow> fault + heap" where
  "free_swbuf buffer hp =
     (case buffer of
        None \<Rightarrow> Inr hp
      | Some b \<Rightarrow>
          (case swbufs hp b of
             None \<Rightarrow> Inl InvalidPointer
           | Some buf \<Rightarrow>
               (let hp1 = cairo_destroy (ctx buf) hp;
                    hp2 = cairo_surface_destroy (surface buf) hp1
                in Inr (hp2\<lparr>swbufs := (swbufs hp2)(b := None)\<rparr>))))"

text \<open>
  \<open>cairo_image_surface_create(CAIRO_FORMAT_ARGB32, width, height)\<close>. The library takes
  the two sizes as \<open>int\<close>, so the \<open>unsigned int\<close> arguments of \<open>create_swbuf\<close>
  arrive in their signed reading. A negative size is invalid and gives an error surface
  whatever else happens; a fresh image surface has \<open>width * height\<close> pixels, all zero.
\<close>

definition cairo_image_surface_create ::
  "surface_outcome \<Rightarrow> 32 word \<Rightarrow> 32 word \<Rightarrow> heap \<Rightarrow> ptr option \<times> heap"
where
  "cairo_image_surface_create outcome w h hp =
     (case outcome of
        ReturnsNull \<Rightarrow> (None, hp)
      | ReturnsError s \<Rightarrow> (Some s, hp\<lparr>surfaces := (surfaces hp)(s \<mapsto> ErrorSurface)\<rparr>)
      | ReturnsImage s \<Rightarrow>
          if 0 \<le> sint w \<and> 0 \<le> sint h
          then (Some s,
                hp\<lparr>surfaces := (surfaces hp)
                      (s \<mapsto> ImageSurface (replicate (nat (sint w) * nat (sint h)) 0))\<rparr>)
          else (Some s, hp\<lparr>surfaces := (surfaces hp)(s \<mapsto> ErrorSurface)\<rparr>))"

text \<open>
  \<open>create_swbuf\<close>, statement by statement. What \<open>calloc\<close> returns (possibly null),
  what the library does on the surface creation, and the address \<open>cairo_create\<close>
  returns are arguments. A fresh block is zero-filled. The only test on the surface is
  the one for the null pointer; \<open>cairo_create\<close> is then called on whatever surface there
  is (on an error surface it returns a context in error, never null). The \<open>perror\<close>
  output is not modelled.
\<close>

definition create_swbuf ::
  "ptr option \<Rightarrow> surface_outcome \<Rightarrow> ptr \<Rightarrow> 32 word \<Rightarrow> 32 word \<Rightarrow> heap
     \<Rightarrow> fault + (ptr option \<times> heap)"
where
  "create_swbuf calloc_ret outcome ctx_ret w h hp =
     (case calloc_ret of
        None \<Rightarrow> Inr (None, hp)
      | Some b \<Rightarrow>
          (let buf0 = \<lparr>width = 0, height = 0, surface = None, ctx = None\<rparr>;
               buf1 = buf0\<lparr>width := w, height := h\<rparr>;
               (surface_ret, hp1) = cairo_image_surface_create outcome w h hp;
               buf2 = buf1\<lparr>surface := surface_ret\<rparr>;
               hp2 = hp1\<lparr>swbufs := (swbufs hp1)(b \<mapsto> buf2)\<rparr>
           in case surface_ret of
                None \<Rightarrow>
                  (case free_swbuf (Some b) hp2 of
                     Inl e \<Rightarrow> Inl e
                   | Inr hp3 \<Rightarrow> Inr (None, hp3))
              | Some s \<Rightarrow>
                  Inr (Some b,
                       hp2\<lparr>swbufs := (swbufs hp2)(b \<mapsto> buf2\<lparr>ctx := Some ctx_ret\<rparr>),
                           contexts := (contexts hp2)(ctx_ret \<mapsto> s)\<rparr>)))"

text \<open>
  \<open>swbuf_get_pixel\<close>: the index \<open>y * width + x\<close> is computed in \<open>unsigned int\<close>; the
  pixel read there is masked with \<open>0xffffff\<close>. Reading through a pointer to no
  surface, from an error surface (\<open>cairo_image_surface_get_data\<close> returns null for it),
  or past the pixel array, is a fault.
\<close>

definition swbuf_get_pixel :: "heap \<Rightarrow> cairo_swbuf_t \<Rightarrow> 32 word \<Rightarrow> 32 word \<Rightarrow> fault + 32 word" where
  "swbuf_get_pixel hp buf x y =
     (case surface buf of
        None \<Rightarrow> Inl InvalidPointer
      | Some s \<Rightarrow>
          (case surfaces hp s of
             None \<Rightarrow> Inl InvalidPointer
           | Some ErrorSurface \<Rightarrow> Inl InvalidPointer
           | Some (ImageSurface data) \<Rightarrow>
               (let i = unat (y * width buf + x)
                in if i < length data then Inr ((data ! i) AND 0xffffff) else Inl OutOfBounds)))"

text \<open>
  \<open>swbuf_calculate_placement\<close>, statement by statement: the destination anchor picks the
  starting corner on the surface, the source anchor moves it by the object's size, the user
  offset is added, and the second corner is the first plus the object's size. The
  \<open>printf\<close> of the result is not modelled.
\<close>

definition swbuf_calculate_placement ::
  "cairo_swbuf_t \<Rightarrow> anchored_placement_t \<Rightarrow> 32 word \<Rightarrow> 32 word \<Rightarrow> placement_t"
where
  "swbuf_calculate_placement buf ap obj_width obj_height =
     (let tlx0 = (case anchor_x (dst_anchor ap) of
                    XPOS_LEFT \<Rightarrow> 0
                  | XPOS_CENTER \<Rightarrow> width buf div 2
                  | XPOS_RIGHT \<Rightarrow> width buf);
          tly0 = (case anchor_y (dst_anchor ap) of
                    YPOS_TOP \<Rightarrow> 0
                  | YPOS_CENTER \<Rightarrow> height buf div 2
                  | YPOS_BOTTOM \<Rightarrow> height buf);
          tlx1 = (case anchor_x (src_anchor ap) of
                    XPOS_LEFT \<Rightarrow> tlx0
                  | XPOS_CENTER \<Rightarrow> tlx0 - obj_width div 2
                  | XPOS_RIGHT \<Rightarrow> tlx0 - obj_width);
          tly1 = (case anchor_y (src_anchor ap) of
                    YPOS_TOP \<Rightarrow> tly0
                  | YPOS_CENTER \<Rightarrow> tly0 - obj_height div 2
                  | YPOS_BOTTOM \<Rightarrow> tly0 - obj_height);
          tlx2 = tlx1 + xoffset ap;
          tly2 = tly1 + yoffset ap
      in \<lparr>top_left = \<lparr>coord_x = tlx2, coord_y = tly2\<rparr>,
          bottom_right = \<lparr>coord_x = tlx2 + obj_width, coord_y = tly2 + obj_height\<rparr>\<rparr>)"

section \<open>The connection handle of ui/historian.h\<close>

subsection \<open>Data\<close>

text \<open>
  The enumeration of connection states and the handle structure, as the header declares
  them. The descriptor is a C \<open>int\<close>; nothing is computed with it, so it is an
  \<open>int\<close> here. \<open>ui_event_cb_t\<close> (declared in ui_events.h, not among the sources) is a
  function pointer, and \<open>pthread_t\<close> an opaque thread identifier.
\<close>

datatype historian_state_t = UNCONNECTED | CONNECTED_WAITING | CONNECTED_READY

record historian_t =
  unix_socket :: string
  historian_fd :: int
  connection_state :: historian_state_t
  event_callback :: "ptr option"
  connection_thread :: nat
  receive_thread :: nat
  running :: bool

subsection \<open>The connection core\<close>

text \<open>
  The header only declares \<open>historian_connect\<close> and \<open>historian_free\<close>; their bodies
  and the two worker threads (historian.c) are not among the sources. What they do is
  taken from the specification of the connection core and written over the data of the
  header: the handle is a \<open>historian_t\<close> and its state a \<open>historian_state_t\<close>.
\<close>

text \<open>
  Modelled from the spec: the error taxonomy of section 7, of which only the allocation
  failure reaches the caller of \<open>connect\<close>.
\<close>

datatype error = AllocationError

text \<open>
  Modelled from the spec: the framing rule of section 4.3, which the collaborator
  supplies. Applied to the bytes received and not yet consumed, it finds no complete
  record yet, or a record and the bytes that follow it, or a malformed record.
\<close>

type_synonym byte = "8 word"

datatype 'e frame = Incomplete | Complete 'e "byte list" | Invalid

type_synonym 'e framing = "byte list \<Rightarrow> 'e frame"

text \<open>
  Modelled from the spec: the handle in its surroundings. \<open>handle\<close> is the handle
  (\<open>None\<close>: there is none), \<open>released\<close> says that \<open>free\<close> has returned and released it
  (the last value of the handle is kept, to see what a worker would still find there),
  \<open>supervisor_live\<close> says that the supervisor thread has not terminated,
  \<open>open_descriptors\<close> are the transport descriptors opened for the handle and not yet
  closed, \<open>receive_buffer\<close> the bytes the receive loop has read and not yet consumed,
  and \<open>deliveries\<close> the records the consumer's callback has been invoked with, oldest
  first. The receive loop runs exactly while the state of the handle is
  \<open>CONNECTED_READY\<close>.
\<close>

record 'e connection =
  handle :: "historian_t option"
  released :: bool
  supervisor_live :: bool
  open_descriptors :: "int set"
  receive_buffer :: "byte list"
  deliveries :: "'e list"

text \<open>
  Modelled from the spec: what \<open>connect\<close> needs from the system (sections 4.1 and 7): the
  handle, its synchronisation primitives and the supervisor thread, each of which may
  fail to be created. \<open>thread_created\<close> is the identifier of the new thread.
\<close>

record resources =
  handle_created :: bool
  primitives_created :: bool
  thread_created :: "nat option"

text \<open>
  Modelled from the spec: \<open>connect(target, callback)\<close> of section 4.1 (the body of
  \<open>historian_connect\<close> is missing). It allocates a handle in state \<open>UNCONNECTED\<close> with
  \<open>running\<close> set, stores target and callback, starts the supervisor and returns the
  handle; it fails with \<open>AllocationError\<close> when a resource cannot be created. It does not
  open the transport itself. The header has no value for "no descriptor"; \<open>-1\<close>, which is
  no descriptor of the system, stands for it.
\<close>

definition historian_connect :: "resources \<Rightarrow> string \<Rightarrow> ptr \<Rightarrow> error + 'e connection" where
  "historian_connect r tgt historian_event_cb =
     (if \<not> handle_created r \<or> \<not> primitives_created r then Inl AllocationError
      else case thread_created r of
             None \<Rightarrow> Inl AllocationError
           | Some t \<Rightarrow>
               Inr \<lparr>handle = Some \<lparr>unix_socket = tgt, historian_fd = -1,
                                     connection_state = UNCONNECTED,
                                     event_callback = Some historian_event_cb,
                                     connection_thread = t, receive_thread = 0,
                                     running = True\<rparr>,
                    released = False, supervisor_live = True, open_descriptors = {},
                    receive_buffer = [],
                    deliveries = []\<rparr>)"

text \<open>
  Modelled from the spec: closing the transport of a handle (sections 4.1 and 4.2): the
  descriptor of the handle is open no longer.
\<close>

definition close_descriptor :: "historian_t \<Rightarrow> 'e connection \<Rightarrow> 'e connection" where
  "close_descriptor h c = c\<lparr>open_descriptors := open_descriptors c - {historian_fd h}\<rparr>"

text \<open>
  Modelled from the spec: the end of a session (section 4.2, step 5, and the handshake
  failure of step 4): the descriptor is closed and the state is \<open>UNCONNECTED\<close> again;
  what the receive loop had buffered is dropped.
\<close>

definition end_session :: "historian_t \<Rightarrow> 'e connection \<Rightarrow> 'e connection" where
  "end_session h c =
     (close_descriptor h c)
       \<lparr>handle := Some (h\<lparr>historian_fd := -1, connection_state := UNCONNECTED\<rparr>),
        receive_buffer := []\<rparr>"

text \<open>
  Modelled from the spec: \<open>free(handle)\<close> of section 4.1 (the body of
  \<open>historian_free\<close> is missing). The call is not one step: while it is under way the
  workers still run. It is the three things the caller's thread does, in the order of
  the spec; between them the workers take their own steps. First it clears \<open>running\<close>
  (and wakes a worker that waits for the retry interval). Calling \<open>free\<close> without a
  handle, on a released handle or twice is a programming error (\<open>None\<close>).
\<close>

definition historian_free_begin :: "'e connection \<Rightarrow> 'e connection option" where
  "historian_free_begin c =
     (case handle c of
        None \<Rightarrow> None
      | Some h \<Rightarrow>
          if running h \<and> \<not> released c
          then Some (c\<lparr>handle := Some (h\<lparr>running := False\<rparr>)\<rparr>)
          else None)"

text \<open>
  Modelled from the spec: the second step of \<open>free\<close> (section 4.1): it closes the
  transport if it is open. Descriptor and state are kept together, as the invariant of
  section 3 asks: with the descriptor closed the session is over.
\<close>

definition historian_free_close :: "'e connection \<Rightarrow> 'e connection option" where
  "historian_free_close c =
     (case handle c of
        None \<Rightarrow> None
      | Some h \<Rightarrow>
          if running h \<or> released c then None
          else if connection_state h = UNCONNECTED then Some c
          else Some (end_session h c))"

text \<open>
  Modelled from the spec: the last step of \<open>free\<close> (section 4.1): it waits for both
  workers to terminate and then releases the handle. Until the supervisor has terminated
  and the receive loop has returned (the state is \<open>UNCONNECTED\<close>), \<open>free\<close> cannot
  return (\<open>None\<close>).
\<close>

definition historian_free_return :: "'e connection \<Rightarrow> 'e connection option" where
  "historian_free_return c =
     (case handle c of
        None \<Rightarrow> None
      | Some h \<Rightarrow>
          if \<not> running h \<and> \<not> released c \<and> \<not> supervisor_live c
             \<and> connection_state h = UNCONNECTED
          then Some (c\<lparr>released := True\<rparr>)
          else None)"

text \<open>
  Modelled from the spec: the inner loop of the receive loop (section 4.3). It takes the
  records off the front of the buffer, one after the other and in this order, until the
  framing rule finds no complete record in what is left, which is retained (\<open>Some\<close>) for
  the next read. A malformed record ends the session (\<open>None\<close>), the default policy of
  the spec; so does a framing rule that returns a record without consuming a byte.
\<close>

function drain :: "'e framing \<Rightarrow> byte list \<Rightarrow> 'e list \<times> byte list option" where
  "drain fr buf =
     (if buf = [] then ([], Some [])
      else case fr buf of
             Incomplete \<Rightarrow> ([], Some buf)
           | Invalid \<Rightarrow> ([], None)
           | Complete e rest \<Rightarrow>
               if length rest < length buf
               then (case drain fr rest of (es, r) \<Rightarrow> (e # es, r))
               else ([], None))"
  by pat_completeness auto
termination
  by (relation "measure (\<lambda>(fr, buf). length buf)") auto

text \<open>
  Modelled from the spec: what can happen around a handle. The first six events are what
  the transport offers to the two workers (sections 4.2 and 4.3): the outcome of an
  attempt to open it, the outcome of the handshake, a read that returns bytes (possibly
  the end of one record and the beginning of the next, or less than a record), the end
  of the stream or an I/O error. \<open>SupervisorExits\<close> is the supervisor leaving its loop.
  The last three are the steps of the caller's \<open>free\<close>.
\<close>

datatype event =
    OpenFailure
  | OpenSuccess int
  | HandshakeSuccess
  | HandshakeFailure
  | Received "byte list"
  | SessionEnds
  | SupervisorExits
  | FreeCalled
  | FreeClosesTransport
  | FreeReturns

text \<open>
  Modelled from the spec: what the workers do with an event, given what they find in the
  handle \<open>h\<close> (the supervisor loop of section 4.2, the receive loop of section 4.3, the
  state machine of section 4.4). An event that finds no worker at the point where it
  would be taken up changes nothing. Whether the handle is released is not looked at: a
  worker that were still there would go on.
  \<^item> Steps 1 and 2: while \<open>running\<close>, the supervisor attempts to open the transport; when
    the attempt fails it waits the retry interval and starts over. The enumeration of
    the header has no value for an attempt in flight, so the state is \<open>UNCONNECTED\<close>
    until an attempt succeeds. Once \<open>running\<close> is cleared no attempt starts.
  \<^item> Step 3: on success the state becomes \<open>CONNECTED_WAITING\<close> and the descriptor (a
    non-negative number the system hands out) is stored.
  \<^item> Step 4: a successful handshake sets \<open>CONNECTED_READY\<close> and starts the receive loop
    with an empty buffer; a failed one ends the session.
  \<^item> The receive loop appends the bytes of a read to its buffer and invokes the callback
    with each record that is now complete, in order; it keeps the bytes left over. A read
    of no bytes is the end of the stream, not a \<open>Received\<close> event.
  \<^item> Step 5: when the receive loop returns (peer closed, framing error, I/O error, or
    \<open>running\<close> found cleared between two deliveries) the session ends.
  \<^item> Step 6: with \<open>running\<close> cleared, the supervisor, at a point where it waits and not
    while the receive loop runs under it, closes any open descriptor and leaves its loop.
\<close>

definition react :: "'e framing \<Rightarrow> event \<Rightarrow> historian_t \<Rightarrow> 'e connection \<Rightarrow> 'e connection" where
  "react fr ev h c =
     (case ev of
        OpenFailure \<Rightarrow> c
      | OpenSuccess fd \<Rightarrow>
          if connection_state h = UNCONNECTED \<and> running h \<and> 0 \<le> fd
          then c\<lparr>handle := Some (h\<lparr>connection_state := CONNECTED_WAITING,
                                    historian_fd := fd\<rparr>),
                 open_descriptors := insert fd (open_descriptors c)\<rparr>
          else c
      | HandshakeSuccess \<Rightarrow>
          if connection_state h = CONNECTED_WAITING
          then c\<lparr>handle := Some (h\<lparr>connection_state := CONNECTED_READY\<rparr>),
                 receive_buffer := []\<rparr>
          else c
      | HandshakeFailure \<Rightarrow>
          if connection_state h = CONNECTED_WAITING then end_session h c else c
      | Received bytes \<Rightarrow>
          if connection_state h = CONNECTED_READY \<and> bytes \<noteq> []
          then (case drain fr (receive_buffer c @ bytes) of
                  (es, Some rest) \<Rightarrow>
                    c\<lparr>receive_buffer := rest, deliveries := deliveries c @ es\<rparr>
                | (es, None) \<Rightarrow>
                    end_session h (c\<lparr>deliveries := deliveries c @ es\<rparr>))
          else c
      | SessionEnds \<Rightarrow>
          if connection_state h = CONNECTED_READY then end_session h c else c
      | SupervisorExits \<Rightarrow>
          if \<not> running h \<and> supervisor_live c \<and> connection_state h \<noteq> CONNECTED_READY
          then (if connection_state h = CONNECTED_WAITING then end_session h c else c)
                 \<lparr>supervisor_live := False\<rparr>
          else c
      | _ \<Rightarrow> c)"

text \<open>
  Modelled from the spec: one event. The steps of \<open>free\<close> are the caller's and can be
  impossible (\<open>None\<close>); the other events are answered by the workers.
\<close>

definition step :: "'e framing \<Rightarrow> event \<Rightarrow> 'e connection \<Rightarrow> 'e connection option" where
  "step fr ev c =
     (case ev of
        FreeCalled \<Rightarrow> historian_free_begin c
      | FreeClosesTransport \<Rightarrow> historian_free_close c
      | FreeReturns \<Rightarrow> historian_free_return c
      | _ \<Rightarrow> Some (case handle c of None \<Rightarrow> c | Some h \<Rightarrow> react fr ev h c))"

text \<open>A history of events, run from a starting point; \<open>None\<close> if one of them cannot happen.\<close>

fun run :: "'e framing \<Rightarrow> event list \<Rightarrow> 'e connection \<Rightarrow> 'e connection option" where
  "run fr [] c = Some c"
| "run fr (ev # evs) c = (case step fr ev c of None \<Rightarrow> None | Some c' \<Rightarrow> run fr evs c')"


text \<open>
  The invariant of the state machine: while the handle is not released the supervisor
  lives as long as \<open>running\<close> is set; once it is released \<open>running\<close> is cleared, the
  supervisor has terminated and the state is \<open>UNCONNECTED\<close>; and exactly the handle's own
  descriptor is open in the two connected states and none in \<open>UNCONNECTED\<close>, where the
  descriptor field is \<open>-1\<close>.
\<close>

definition consistent :: "'e connection \<Rightarrow> bool" where
  "consistent c =
     (case handle c of
        None \<Rightarrow> open_descriptors c = {}
      | Some h \<Rightarrow>
          (supervisor_live c \<or> \<not> running h) \<and>
          (\<not> released c
             \<or> \<not> running h \<and> \<not> supervisor_live c \<and> connection_state h = UNCONNECTED) \<and>
          (case connection_state h of
             UNCONNECTED \<Rightarrow> open_descriptors c = {} \<and> historian_fd h = -1
           | CONNECTED_WAITING \<Rightarrow> open_descriptors c = {historian_fd h}
           | CONNECTED_READY \<Rightarrow> open_descriptors c = {historian_fd h}))"

text \<open>
  The whole of a \<open>free\<close> that nothing delays: the caller's three steps, with the
  supervisor leaving its loop after the transport is closed.
\<close>

definition free_events :: "event list" where
  "free_events = [FreeCalled, FreeClosesTransport, SupervisorExits, FreeReturns]"

text \<open>
  The byte stream of a sequence of records under an encoding, and what it means for a
  framing rule to decode a record \<open>e\<close> of that encoding: the encoding of \<open>e\<close> is not
  empty, the rule finds \<open>e\<close> at the front of any stream that starts with its encoding
  and leaves what follows, and it asks for more bytes on every proper beginning of the
  encoding.
\<close>

definition encode :: "('e \<Rightarrow> byte list) \<Rightarrow> 'e list \<Rightarrow> byte list" where
  "encode enc rs = concat (map enc rs)"

definition frames :: "'e framing \<Rightarrow> ('e \<Rightarrow> byte list) \<Rightarrow> 'e \<Rightarrow> bool" where
  "frames fr enc e \<longleftrightarrow>
     enc e \<noteq> []
     \<and> (\<forall>rest. fr (enc e @ rest) = Complete e rest)
     \<and> (\<forall>p s. p \<noteq> [] \<and> s \<noteq> [] \<and> p @ s = enc e \<longrightarrow> fr p = Incomplete)"

text \<open>
  What is left in the buffer is the beginning of the next record: nothing, if no record
  follows, and less than the whole record otherwise.
\<close>

definition pending :: "('e \<Rightarrow> byte list) \<Rightarrow> byte list \<Rightarrow> 'e list \<Rightarrow> bool" where
  "pending enc p rs = (case rs of [] \<Rightarrow> p = [] | r # _ \<Rightarrow> (\<exists>s. s \<noteq> [] \<and> p @ s = enc r))"

section \<open>Concrete inputs\<close>

definition empty_heap :: heap where
  "empty_heap = \<lparr>swbufs = Map.empty, surfaces = Map.empty, contexts = Map.empty\<rparr>"

definition px_heap :: heap where
  "px_heap =
     \<lparr>swbufs = Map.empty,
      surfaces = [7 \<mapsto> ImageSurface [0xff112233, 0x80445566, 0x7f778899, 0x01aabbcc]],
      contexts = Map.empty\<rparr>"

definition px_buf :: cairo_swbuf_t where
  "px_buf = \<lparr>width = 2, height = 2, surface = Some 7, ctx = None\<rparr>"

text \<open>
  A framing rule to run the connection core with: a record is a list of fewer than 256
  bytes, sent as its length in one byte followed by the bytes.
\<close>

definition lp_enc :: "byte list \<Rightarrow> byte list" where
  "lp_enc r = of_nat (length r) # r"

definition lp_frame :: "byte list framing" where
  "lp_frame buf =
     (case buf of
        [] \<Rightarrow> Incomplete
      | n # bs \<Rightarrow>
          if unat n \<le> length bs then Complete (take (unat n) bs) (drop (unat n) bs)
          else Incomplete)"

definition all_created :: resources where
  "all_created = \<lparr>handle_created = True, primitives_created = True, thread_created = Some 1\<rparr>"

definition fresh_connection :: "byte list connection" where
  "fresh_connection =
     \<lparr>handle = Some \<lparr>unix_socket = ''/tmp/historian.sock'', historian_fd = -1,
                      connection_state = UNCONNECTED, event_callback = Some 4096,
                      connection_thread = 1, receive_thread = 0, running = True\<rparr>,
      released = False, supervisor_live = True, open_descriptors = {}, receive_buffer = [],
      deliveries = []\<rparr>"

definition ready_handle :: historian_t where
  "ready_handle =
     \<lparr>unix_socket = ''/tmp/historian.sock'', historian_fd = 5,
      connection_state = CONNECTED_READY, event_callback = Some 4096,
      connection_thread = 1, receive_thread = 0, running = True\<rparr>"

definition ready_connection :: "byte list connection" where
  "ready_connection =
     \<lparr>handle = Some ready_handle, released = False, supervisor_live = True,
      open_descriptors = {5}, receive_buffer = [], deliveries = [[1, 2], [3]]\<rparr>"

definition session_events :: "event list" where
  "session_events =
     [OpenFailure, OpenSuccess 5, HandshakeSuccess, Received [2, 1], Received [2, 1, 3]]"

text \<open>
  A \<open>free\<close> called in the middle of that session: a record still arrives and is delivered
  after \<open>running\<close> is cleared, before the transport is closed and \<open>free\<close> returns. Then
  what the transport may offer after \<open>free\<close> has returned.
\<close>

definition shutdown_events :: "event list" where
  "shutdown_events =
     [FreeCalled, Received [1, 7], FreeClosesTransport, SupervisorExits, FreeReturns]"

definition released_connection :: "byte list connection" where
  "released_connection =
     \<lparr>handle = Some \<lparr>unix_socket = ''/tmp/historian.sock'', historian_fd = -1,
                      connection_state = UNCONNECTED, event_callback = Some 4096,
                      connection_thread = 1, receive_thread = 0, running = False\<rparr>,
      released = True, supervisor_live = False, open_descriptors = {}, receive_buffer = [],
      deliveries = [[1, 2], [3], [7]]\<rparr>"

definition late_events :: "event list" where
  "late_events = [OpenSuccess 9, HandshakeSuccess, Received [1, 8], SessionEnds, SupervisorExits]"

section \<open>Properties of the surface buffer\<close>

text \<open>
  C8: for every surface, every anchored placement and every object width and height, the
  placement that \<open>swbuf_calculate_placement\<close> computes has its bottom right corner at
  the top left corner plus the object's width and height, in the 32-bit arithmetic of the
  code.
\<close>

theorem swbuf_calculate_placement_corners:
  "coord_x (bottom_right (swbuf_calculate_placement buf ap obj_width obj_height))
     = coord_x (top_left (swbuf_calculate_placement buf ap obj_width obj_height)) + obj_width
   \<and> coord_y (bottom_right (swbuf_calculate_placement buf ap obj_width obj_height))
     = coord_y (top_left (swbuf_calculate_placement buf ap obj_width obj_height)) + obj_height"
  by (simp add: swbuf_calculate_placement_def Let_def)

text \<open>
  Read as integers, with the coordinate signed and the size unsigned, the sum is exact
  as long as it does not exceed the largest \<open>int\<close>.
\<close>

lemma sint_plus_unsigned:
  fixes a w :: "32 word"
  assumes "sint a + uint w < 2 ^ 31"
  shows "sint (a + w) = sint a + uint w"
proof -
  have s: "- (2 ^ 31) \<le> sint a"
    using sint_ge [of a] by simp
  have u: "0 \<le> uint w"
    by simp
  have lo: "- (2 ^ 31) \<le> sint a + uint w"
    using s u by linarith
  have "a + w = word_of_int (sint a + uint w)"
    by simp
  then have "sint (a + w) = signed_take_bit 31 (sint a + uint w)"
    by (simp only: sint_sbintrunc') simp
  then show ?thesis
    using lo assms by (simp add: signed_take_bit_int_eq_self)
qed

lemma swbuf_calculate_placement_right_edge_int:
  assumes "sint (coord_x (top_left (swbuf_calculate_placement buf ap obj_width obj_height)))
             + uint obj_width < 2 ^ 31"
  shows "sint (coord_x (bottom_right (swbuf_calculate_placement buf ap obj_width obj_height)))
           = sint (coord_x (top_left (swbuf_calculate_placement buf ap obj_width obj_height)))
             + uint obj_width"
proof -
  have "coord_x (bottom_right (swbuf_calculate_placement buf ap obj_width obj_height))
          = coord_x (top_left (swbuf_calculate_placement buf ap obj_width obj_height))
            + obj_width"
    by (simp add: swbuf_calculate_placement_def Let_def)
  then show ?thesis
    using sint_plus_unsigned [OF assms] by simp
qed

text \<open>
  The two paths of \<open>create_swbuf\<close> that return the null pointer, and \<open>free_swbuf\<close> on
  it: \<open>free_swbuf\<close> does nothing on the null pointer; \<open>create_swbuf\<close> returns the null
  pointer and leaves the heap as it was when \<open>calloc\<close> fails; and if the surface pointer
  is null it returns the null pointer with the block it had obtained released.
\<close>

lemma create_swbuf_null_paths:
  "free_swbuf None hp = Inr hp
   \<and> create_swbuf None outcome ctx_ret w h hp = Inr (None, hp)
   \<and> create_swbuf (Some b) ReturnsNull ctx_ret w h hp
       = Inr (None, hp\<lparr>swbufs := (swbufs hp)(b := None)\<rparr>)"
  by (simp add: create_swbuf_def cairo_image_surface_create_def free_swbuf_def
      cairo_destroy_def cairo_surface_destroy_def Let_def)

text \<open>
  When the surface creation fails, the library returns an error surface, not the null
  pointer. The test of \<open>create_swbuf\<close> does not see it: the buffer is kept, a context is
  created on the error surface, and the buffer is returned.
\<close>

lemma create_swbuf_error_surface:
  "create_swbuf (Some b) (ReturnsError s) ctx_ret w h hp
     = Inr (Some b,
            hp\<lparr>surfaces := (surfaces hp)(s \<mapsto> ErrorSurface),
                swbufs := (swbufs hp)
                  (b \<mapsto> \<lparr>width = w, height = h, surface = Some s, ctx = Some ctx_ret\<rparr>),
                contexts := (contexts hp)(ctx_ret \<mapsto> s)\<rparr>)"
  by (simp add: create_swbuf_def cairo_image_surface_create_def Let_def)

text \<open>
  C9: the claim is that \<open>create_swbuf\<close> returns the null pointer, with the partially
  built buffer released, whenever the buffer allocation or the surface creation fails.
  It does when \<open>calloc\<close> fails. It does not when the surface creation fails: for
  \<open>create_swbuf(2147483648, 1)\<close> on an empty heap, with \<open>calloc\<close> returning block 1, the
  width is negative as an \<open>int\<close>, the library returns an error surface (at address 2),
  and \<open>create_swbuf\<close> returns block 1, a buffer whose surface is that error surface, with
  a context (at address 3) on it.
\<close>

theorem create_swbuf_returns_buffer_on_error_surface:
  "create_swbuf (Some 1) (ReturnsImage 2) 3 0x80000000 1 empty_heap
     = Inr (Some 1,
            \<lparr>swbufs = [1 \<mapsto> \<lparr>width = 0x80000000, height = 1, surface = Some 2,
                               ctx = Some 3\<rparr>],
             surfaces = [2 \<mapsto> ErrorSurface],
             contexts = [3 \<mapsto> 2]\<rparr>)"
  by (simp add: create_swbuf_def cairo_image_surface_create_def empty_heap_def Let_def)

text \<open>The pixel index of an in-bounds coordinate lies inside a \<open>width * height\<close> array.\<close>

lemma pixel_index_in_range:
  fixes x y w h :: "32 word"
  assumes "x < w" and "y < h"
  shows "unat (y * w + x) < unat w * unat h"
proof -
  have xw: "unat x < unat w"
    using assms(1) by (simp add: word_less_nat_alt)
  have yh: "unat y < unat h"
    using assms(2) by (simp add: word_less_nat_alt)
  have "unat (y * w + x) \<le> unat y * unat w + unat x"
    by (simp add: unat_word_ariths)
  also have "\<dots> < (unat y + 1) * unat w"
    using xw by simp
  also have "\<dots> \<le> unat h * unat w"
    using yh by (intro mult_le_mono1) simp
  finally show ?thesis
    by (simp add: mult.commute)
qed

text \<open>
  On a surface of fewer than \<open>2 ^ 32\<close> pixels the index does not wrap: it is the
  position of the pixel \<open>(x, y)\<close> in the row-major array.
\<close>

lemma pixel_index_row_major:
  fixes x y w h :: "32 word"
  assumes "x < w" and "y < h" and "unat w * unat h < 2 ^ 32"
  shows "unat (y * w + x) = unat y * unat w + unat x"
proof -
  have xw: "unat x < unat w"
    using assms(1) by (simp add: word_less_nat_alt)
  have yh: "unat y < unat h"
    using assms(2) by (simp add: word_less_nat_alt)
  have "unat y * unat w + unat x < (unat y + 1) * unat w"
    using xw by simp
  also have "\<dots> \<le> unat h * unat w"
    using yh by (intro mult_le_mono1) simp
  finally have small: "unat y * unat w + unat x < 2 ^ 32"
    using assms(3) by (simp add: mult.commute)
  have "unat (y * w + x) = (unat y * unat w + unat x) mod 2 ^ 32"
    by (simp add: unat_word_ariths mod_simps)
  then show ?thesis
    using small by simp
qed

text \<open>
  A buffer that \<open>create_swbuf\<close> returns points to a surface: an error surface, or an image
  surface of \<open>width * height\<close> pixels, which meets the hypotheses of the next theorem.
\<close>

lemma nat_sint_unat:
  fixes w :: "32 word"
  assumes "0 \<le> sint w"
  shows "nat (sint w) = unat w"
proof -
  have lo: "0 \<le> uint w" and hi: "uint w < 2 ^ 32"
    using uint_bounded [of w] by simp_all
  have s: "sint w = (uint w + 2 ^ 31) mod 2 ^ 32 - 2 ^ 31"
    by (simp add: sint_uint signed_take_bit_eq_take_bit_shift take_bit_eq_mod)
  have "uint w < 2 ^ 31"
  proof (rule ccontr)
    assume "\<not> uint w < 2 ^ 31"
    then have big: "2 ^ 31 \<le> uint w"
      by simp
    have "(uint w + 2 ^ 31) mod 2 ^ 32 = uint w + 2 ^ 31 - 2 ^ 32"
      using big hi by (simp add: mod_pos_geq)
    then have "sint w = uint w - 2 ^ 32"
      using s by simp
    then show False
      using assms hi by simp
  qed
  then have "sint w = uint w"
    using s lo by simp
  then show ?thesis
    by simp
qed

lemma create_swbuf_pixels:
  assumes "create_swbuf calloc_ret outcome ctx_ret w h hp = Inr (Some b, hp')"
  shows "\<exists>buf s. swbufs hp' b = Some buf \<and> surface buf = Some s
           \<and> (surfaces hp' s = Some ErrorSurface
                \<or> (\<exists>data. surfaces hp' s = Some (ImageSurface data)
                      \<and> length data = unat (width buf) * unat (height buf)))"
  using assms
  by (auto simp: create_swbuf_def cairo_image_surface_create_def Let_def nat_sint_unat
      split: option.splits sum.splits surface_outcome.splits if_splits)

text \<open>
  C10: for every image surface of \<open>width * height\<close> pixels and every in-bounds
  coordinate \<open>(x, y)\<close>, \<open>swbuf_get_pixel\<close> returns the pixel stored at index
  \<open>y * width + x\<close> with its alpha byte masked off, which is a value of at most
  \<open>0xffffff\<close>.
\<close>

theorem swbuf_get_pixel_rgb_only:
  assumes "surface buf = Some s"
    and "surfaces hp s = Some (ImageSurface data)"
    and "length data = unat (width buf) * unat (height buf)"
    and "x < width buf"
    and "y < height buf"
  shows "swbuf_get_pixel hp buf x y = Inr ((data ! unat (y * width buf + x)) AND 0xffffff)
         \<and> (data ! unat (y * width buf + x)) AND 0xffffff \<le> 0xffffff"
  using assms pixel_index_in_range [of x "width buf" y "height buf"]
  by (simp add: swbuf_get_pixel_def Let_def word_and_le1)

theorem swbuf_get_pixel_rgb_only_witness:
  "surface px_buf = Some 7
   \<and> surfaces px_heap 7 = Some (ImageSurface [0xff112233, 0x80445566, 0x7f778899, 0x01aabbcc])
   \<and> length [0xff112233, 0x80445566, 0x7f778899, 0x01aabbcc :: 32 word]
       = unat (width px_buf) * unat (height px_buf)
   \<and> (0 :: 32 word) < width px_buf \<and> (1 :: 32 word) < height px_buf
   \<and> swbuf_get_pixel px_heap px_buf 0 1 = Inr 0x778899"
proof -
  have h1: "surface px_buf = Some 7"
    by (simp add: px_buf_def)
  have h2: "surfaces px_heap 7
              = Some (ImageSurface [0xff112233, 0x80445566, 0x7f778899, 0x01aabbcc])"
    by (simp add: px_heap_def)
  have h3: "length [0xff112233, 0x80445566, 0x7f778899, 0x01aabbcc :: 32 word]
              = unat (width px_buf) * unat (height px_buf)"
    by (simp add: px_buf_def)
  have h4: "(0 :: 32 word) < width px_buf"
    by (simp add: px_buf_def)
  have h5: "(1 :: 32 word) < height px_buf"
    by (simp add: px_buf_def)
  have i: "unat (1 * width px_buf + 0) = 2"
    by (simp add: px_buf_def)
  show ?thesis
    using h1 h2 h3 h4 h5 i swbuf_get_pixel_rgb_only [OF h1 h2 h3 h4 h5]
    by simp
qed

section \<open>Properties of the connection handle\<close>

lemma historian_state_t_UNIV:
  "(UNIV :: historian_state_t set) = {UNCONNECTED, CONNECTED_WAITING, CONNECTED_READY}"
  by (auto intro: historian_state_t.exhaust)

lemma connection_state_range:
  "range (connection_state :: historian_t \<Rightarrow> historian_state_t) = UNIV"
proof -
  have "s \<in> range (connection_state :: historian_t \<Rightarrow> historian_state_t)" for s
  proof -
    have "connection_state (ready_handle\<lparr>connection_state := s\<rparr>) = s"
      by simp
    then show ?thesis
      by (metis rangeI)
  qed
  then show ?thesis
    by blast
qed

text \<open>
  C1, as stated: the connection-state field of a handle takes exactly one of four values,
  \<open>CONNECTING\<close> among them. The enumeration of historian.h has the three enumerators
  \<open>UNCONNECTED\<close>, \<open>CONNECTED_WAITING\<close> and \<open>CONNECTED_READY\<close> and no \<open>CONNECTING\<close>:
  the values the field can take are not four.
\<close>

theorem connection_state_not_four_values:
  "card (range (connection_state :: historian_t \<Rightarrow> historian_state_t)) \<noteq> 4"
  by (simp add: connection_state_range historian_state_t_UNIV)

text \<open>
  C1, amended: for every connection handle, the connection-state field takes exactly one
  of the three values \<open>UNCONNECTED\<close>, \<open>CONNECTED_WAITING\<close>, \<open>CONNECTED_READY\<close>, which
  are all the values the field can take.
\<close>

theorem connection_state_three_values:
  "connection_state (h :: historian_t) \<in> {UNCONNECTED, CONNECTED_WAITING, CONNECTED_READY}
   \<and> range (connection_state :: historian_t \<Rightarrow> historian_state_t)
       = {UNCONNECTED, CONNECTED_WAITING, CONNECTED_READY}
   \<and> card {UNCONNECTED, CONNECTED_WAITING, CONNECTED_READY} = 3"
proof -
  have one: "connection_state h \<in> {UNCONNECTED, CONNECTED_WAITING, CONNECTED_READY}"
    by (cases "connection_state h") simp_all
  have all: "range (connection_state :: historian_t \<Rightarrow> historian_state_t)
               = {UNCONNECTED, CONNECTED_WAITING, CONNECTED_READY}"
    by (simp only: connection_state_range historian_state_t_UNIV)
  have three: "card {UNCONNECTED, CONNECTED_WAITING, CONNECTED_READY} = 3"
    by simp
  from one all three show ?thesis
    by (intro conjI)
qed

section \<open>Properties of the connection core\<close>

subsection \<open>The invariant\<close>

lemma consistent_connect:
  "historian_connect r tgt cb = Inr c \<Longrightarrow> consistent c"
  by (auto simp: historian_connect_def consistent_def split: if_splits option.splits)

lemma consistent_end_session:
  "consistent c \<Longrightarrow> handle c = Some h \<Longrightarrow> connection_state h \<noteq> UNCONNECTED \<Longrightarrow>
   consistent (end_session h c)"
  by (auto simp: consistent_def end_session_def close_descriptor_def
      split: historian_state_t.splits)

lemma consistent_deliveries:
  "consistent (c\<lparr>deliveries := d\<rparr>) = consistent c"
  by (cases "handle c") (simp_all add: consistent_def split: historian_state_t.split)

lemma consistent_buffer:
  "consistent (c\<lparr>receive_buffer := b\<rparr>) = consistent c"
  by (cases "handle c") (simp_all add: consistent_def split: historian_state_t.split)

lemma consistent_supervisor_exits:
  "consistent c \<Longrightarrow> handle c = Some h \<Longrightarrow> \<not> running h \<Longrightarrow>
   consistent (c\<lparr>supervisor_live := False\<rparr>)"
  by (auto simp: consistent_def split: historian_state_t.splits)

lemma handle_end_session:
  "handle (end_session h c) = Some (h\<lparr>historian_fd := -1, connection_state := UNCONNECTED\<rparr>)"
  by (simp add: end_session_def close_descriptor_def)

lemma consistent_react:
  assumes "consistent c" and "handle c = Some h"
  shows "consistent (react fr ev h c)"
proof (cases ev)
  case (Received bytes)
  obtain es r where d: "drain fr (receive_buffer c @ bytes) = (es, r)"
    by (cases "drain fr (receive_buffer c @ bytes)")
  show ?thesis
  proof (cases "connection_state h = CONNECTED_READY \<and> bytes \<noteq> []")
    case False
    then show ?thesis
      using assms(1) Received by (auto simp: react_def)
  next
    case True
    show ?thesis
    proof (cases r)
      case None
      have "react fr ev h c = end_session h (c\<lparr>deliveries := deliveries c @ es\<rparr>)"
        using True Received d None by (simp add: react_def)
      then show ?thesis
        using consistent_end_session [of "c\<lparr>deliveries := deliveries c @ es\<rparr>" h]
          assms True
        by (simp add: consistent_deliveries)
    next
      case (Some rest)
      have "react fr ev h c = c\<lparr>receive_buffer := rest, deliveries := deliveries c @ es\<rparr>"
        using True Received d Some by (simp add: react_def)
      then show ?thesis
        using assms(1) by (simp add: consistent_buffer consistent_deliveries)
    qed
  qed
next
  case SupervisorExits
  show ?thesis
  proof (cases "\<not> running h \<and> supervisor_live c \<and> connection_state h \<noteq> CONNECTED_READY")
    case False
    then show ?thesis
      using assms(1) SupervisorExits by (auto simp: react_def)
  next
    case True
    then have stopped: "\<not> running h"
      by simp
    show ?thesis
    proof (cases "connection_state h = CONNECTED_WAITING")
      case waiting: True
      have ended: "consistent (end_session h c)"
        using consistent_end_session [OF assms] waiting by simp
      have "consistent ((end_session h c)\<lparr>supervisor_live := False\<rparr>)"
        by (rule consistent_supervisor_exits [OF ended handle_end_session])
          (simp add: stopped)
      then show ?thesis
        using True waiting SupervisorExits by (simp add: react_def)
    next
      case False
      have "consistent (c\<lparr>supervisor_live := False\<rparr>)"
        by (rule consistent_supervisor_exits [OF assms stopped])
      then show ?thesis
        using True False SupervisorExits by (simp add: react_def)
    qed
  qed
qed (use assms in \<open>auto simp: react_def consistent_def end_session_def close_descriptor_def
      split: if_splits historian_state_t.splits\<close>)

lemma consistent_step:
  assumes "consistent c" and "step fr ev c = Some c'"
  shows "consistent c'"
proof (cases ev)
  case FreeCalled
  then show ?thesis
    using assms
    by (auto simp: step_def historian_free_begin_def consistent_def
        split: option.splits if_splits historian_state_t.splits)
next
  case FreeClosesTransport
  then show ?thesis
    using assms consistent_end_session [of c]
    by (auto simp: step_def historian_free_close_def split: option.splits if_splits)
next
  case FreeReturns
  then show ?thesis
    using assms
    by (auto simp: step_def historian_free_return_def consistent_def
        split: option.splits if_splits)
qed (use assms consistent_react [of c _ fr ev] in
      \<open>auto simp: step_def split: option.splits\<close>)

lemma consistent_run:
  "consistent c \<Longrightarrow> run fr evs c = Some c' \<Longrightarrow> consistent c'"
  by (induction evs arbitrary: c) (auto split: option.splits dest: consistent_step)

lemma run_append:
  "run fr (xs @ ys) c = (case run fr xs c of None \<Rightarrow> None | Some c' \<Rightarrow> run fr ys c')"
  by (induction xs arbitrary: c) (auto split: option.splits)

text \<open>
  Once the handle is released, nothing that happens changes anything: \<open>running\<close> is
  cleared, so no attempt to open the transport starts; no session is open, so nothing is
  read or delivered; and no supervisor is left to act.
\<close>

lemma step_released:
  assumes "consistent c" and "released c" and "step fr ev c = Some c'"
  shows "c' = c"
proof (cases "handle c")
  case None
  then show ?thesis
    using assms(3)
    by (cases ev)
      (auto simp: step_def historian_free_begin_def historian_free_close_def
        historian_free_return_def)
next
  case (Some h)
  have quiet: "\<not> running h" "\<not> supervisor_live c" "connection_state h = UNCONNECTED"
    using assms(1,2) Some by (auto simp: consistent_def)
  show ?thesis
    using assms(2,3) Some quiet
    by (cases ev)
      (auto simp: step_def react_def historian_free_begin_def historian_free_close_def
        historian_free_return_def)
qed

lemma run_released:
  "consistent c \<Longrightarrow> released c \<Longrightarrow> run fr evs c = Some c' \<Longrightarrow> c' = c"
proof (induction evs arbitrary: c')
  case Nil
  then show ?case by simp
next
  case (Cons ev evs)
  obtain c1 where first: "step fr ev c = Some c1" and rest: "run fr evs c1 = Some c'"
    using Cons.prems(3) by (auto split: option.splits)
  have "c1 = c"
    using Cons.prems(1,2) first by (rule step_released)
  then show ?case
    using Cons.IH [OF Cons.prems(1,2)] rest by simp
qed

text \<open>
  The transport offers its events whether or not anybody takes them up: after the
  release every history of such events runs.
\<close>

lemma run_offers:
  assumes "\<forall>ev \<in> set evs. ev \<noteq> FreeCalled \<and> ev \<noteq> FreeClosesTransport \<and> ev \<noteq> FreeReturns"
  shows "\<exists>c'. run fr evs c = Some c'"
  using assms
proof (induction evs arbitrary: c)
  case Nil
  then show ?case by simp
next
  case (Cons ev evs)
  obtain c1 where "step fr ev c = Some c1"
    using Cons.prems by (cases ev) (simp_all add: step_def)
  then show ?case
    using Cons by simp
qed

text \<open>
  From every state in which \<open>free\<close> may be called, the call goes through: the flag is
  cleared, the transport closed, the supervisor leaves, \<open>free\<close> returns and the handle is
  released. It invokes no callback itself.
\<close>

lemma free_completes:
  assumes "consistent c" and "handle c = Some h" and "running h"
  shows "\<exists>c'. run fr free_events c = Some c' \<and> released c'
           \<and> deliveries c' = deliveries c"
proof -
  have live: "supervisor_live c" and kept: "\<not> released c"
    using assms by (auto simp: consistent_def)
  show ?thesis
    using assms(2,3) live kept
    by (cases "connection_state h")
      (simp_all add: free_events_def step_def react_def historian_free_begin_def
        historian_free_close_def historian_free_return_def end_session_def
        close_descriptor_def)
qed

subsection \<open>The receive loop on a well-formed stream\<close>

lemma encode_Nil: "encode enc [] = []"
  by (simp add: encode_def)

lemma encode_Cons: "encode enc (r # rs) = enc r @ encode enc rs"
  by (simp add: encode_def)

lemma drain_Nil: "drain fr [] = ([], Some [])"
  by simp

text \<open>The beginning of a record stays in the buffer.\<close>

lemma drain_partial:
  assumes "frames fr enc e" and "p @ s = enc e" and "s \<noteq> []"
  shows "drain fr p = ([], Some p)"
proof (cases "p = []")
  case True
  then show ?thesis by simp
next
  case False
  then have "fr p = Incomplete"
    using assms by (auto simp: frames_def)
  then show ?thesis
    using False by simp
qed

text \<open>A whole record at the front of the buffer is taken off.\<close>

lemma drain_whole:
  assumes "frames fr enc e"
  shows "drain fr (enc e @ rest) = (case drain fr rest of (es, r) \<Rightarrow> (e # es, r))"
proof -
  have ne: "enc e \<noteq> []" and c: "fr (enc e @ rest) = Complete e rest"
    using assms by (auto simp: frames_def)
  have "length rest < length (enc e @ rest)"
    using ne by simp
  then show ?thesis
    using ne c by (subst drain.simps) simp
qed

text \<open>
  Draining any beginning \<open>xs\<close> of the stream of the records \<open>rs\<close> yields the records
  that are complete in \<open>xs\<close>, in order, and retains the beginning of the next one.
\<close>

lemma drain_prefix:
  assumes "\<forall>e \<in> set rs. frames fr enc e" and "xs @ ys = encode enc rs"
  shows "\<exists>rs1 rs2 p. rs = rs1 @ rs2 \<and> drain fr xs = (rs1, Some p)
           \<and> p @ ys = encode enc rs2 \<and> pending enc p rs2"
  using assms
proof (induction rs arbitrary: xs ys)
  case Nil
  then show ?case
    by (simp add: encode_Nil pending_def)
next
  case (Cons r rs)
  have fr: "frames fr enc r"
    using Cons.prems(1) by simp
  have eq: "xs @ ys = enc r @ encode enc rs"
    using Cons.prems(2) by (simp add: encode_Cons)
  show ?case
  proof (cases "length xs < length (enc r)")
    case True
    define s where "s = drop (length xs) (enc r)"
    have "take (length xs) (xs @ ys) = take (length xs) (enc r @ encode enc rs)"
      using eq by simp
    then have "xs = take (length xs) (enc r)"
      using True by simp
    then have whole: "xs @ s = enc r"
      unfolding s_def by (metis append_take_drop_id)
    have nonempty: "s \<noteq> []"
      unfolding s_def using True by simp
    have "drain fr xs = ([], Some xs)"
      by (rule drain_partial [OF fr whole nonempty])
    moreover have "pending enc xs (r # rs)"
      using whole nonempty by (auto simp: pending_def)
    ultimately show ?thesis
      using Cons.prems(2)
      by (intro exI [of _ "[]"] exI [of _ "r # rs"] exI [of _ xs]) simp
  next
    case False
    define xs' where "xs' = drop (length (enc r)) xs"
    have "take (length (enc r)) (xs @ ys) = take (length (enc r)) (enc r @ encode enc rs)"
      using eq by simp
    then have "take (length (enc r)) xs = enc r"
      using False by simp
    then have split: "xs = enc r @ xs'"
      unfolding xs'_def by (metis append_take_drop_id)
    then have "enc r @ xs' @ ys = enc r @ encode enc rs"
      using eq by simp
    then have rest: "xs' @ ys = encode enc rs"
      by simp
    obtain rs1 rs2 p where ih: "rs = rs1 @ rs2" "drain fr xs' = (rs1, Some p)"
      "p @ ys = encode enc rs2" "pending enc p rs2"
      using Cons.IH [OF _ rest] Cons.prems(1) by auto
    have "drain fr xs = (r # rs1, Some p)"
      using drain_whole [OF fr, of xs'] ih(2) split by simp
    then show ?thesis
      using ih by (intro exI [of _ "r # rs1"] exI [of _ rs2] exI [of _ p]) simp
  qed
qed

text \<open>
  The receive loop over the reads \<open>cs\<close> of a session, when the buffer and the reads
  together are the stream of the records \<open>rs\<close>: every record is delivered, once, in
  order, and the session goes on.
\<close>

lemma run_received:
  assumes "\<forall>e \<in> set rs. frames fr enc e"
    and "handle c = Some h"
    and "connection_state h = CONNECTED_READY"
    and "\<forall>k \<in> set cs. k \<noteq> []"
    and "receive_buffer c @ concat cs = encode enc rs"
    and "pending enc (receive_buffer c) rs"
  shows "\<exists>c'. run fr (map Received cs) c = Some c' \<and> handle c' = Some h
           \<and> deliveries c' = deliveries c @ rs \<and> receive_buffer c' = []"
  using assms
proof (induction cs arbitrary: c rs)
  case Nil
  have all: "receive_buffer c = encode enc rs"
    using Nil.prems(5) by simp
  have "rs = []"
  proof (cases rs)
    case Nil
    then show ?thesis by simp
  next
    case (Cons r rs')
    then obtain s where "s \<noteq> []" and "receive_buffer c @ s = enc r"
      using Nil.prems(6) by (auto simp: pending_def)
    then have "length (receive_buffer c) < length (enc r)"
      by (metis length_append length_greater_0_conv less_add_same_cancel1)
    moreover have "length (enc r) \<le> length (receive_buffer c)"
      using all Cons by (simp add: encode_Cons)
    ultimately show ?thesis
      by simp
  qed
  then show ?case
    using all Nil.prems(2) by (simp add: encode_Nil)
next
  case (Cons k cs)
  have k: "k \<noteq> []" and ks: "\<forall>k \<in> set cs. k \<noteq> []"
    using Cons.prems(4) by simp_all
  have "(receive_buffer c @ k) @ concat cs = encode enc rs"
    using Cons.prems(5) by simp
  then obtain rs1 rs2 p where split: "rs = rs1 @ rs2"
    and d: "drain fr (receive_buffer c @ k) = (rs1, Some p)"
    and rest: "p @ concat cs = encode enc rs2" and pend: "pending enc p rs2"
    using drain_prefix [OF Cons.prems(1)] by blast
  let ?c1 = "c\<lparr>receive_buffer := p, deliveries := deliveries c @ rs1\<rparr>"
  have first: "step fr (Received k) c = Some ?c1"
    using Cons.prems(2,3) k d by (simp add: step_def react_def)
  have "\<exists>c'. run fr (map Received cs) ?c1 = Some c' \<and> handle c' = Some h
          \<and> deliveries c' = deliveries ?c1 @ rs2 \<and> receive_buffer c' = []"
  proof (rule Cons.IH)
    show "\<forall>e \<in> set rs2. frames fr enc e"
      using Cons.prems(1) split by simp
    show "handle ?c1 = Some h"
      using Cons.prems(2) by simp
    show "connection_state h = CONNECTED_READY"
      by (rule Cons.prems(3))
    show "\<forall>k \<in> set cs. k \<noteq> []"
      by (rule ks)
    show "receive_buffer ?c1 @ concat cs = encode enc rs2"
      using rest by simp
    show "pending enc (receive_buffer ?c1) rs2"
      using pend by simp
  qed
  then show ?case
    using first split by auto
qed

subsection \<open>The length-prefixed framing\<close>

lemma lp_frames:
  assumes "length r < 256"
  shows "frames lp_frame lp_enc r"
proof -
  have n: "unat (of_nat (length r) :: byte) = length r"
    using assms by (simp add: unat_of_nat)
  have whole: "lp_frame (lp_enc r @ rest) = Complete r rest" for rest
    by (simp add: lp_frame_def lp_enc_def n)
  have part: "lp_frame p = Incomplete"
    if pne: "p \<noteq> []" and sne: "s \<noteq> []" and eq: "p @ s = lp_enc r" for p s
  proof -
    obtain a p' where ap: "p = a # p'"
      using pne by (auto simp: neq_Nil_conv)
    have p: "p = of_nat (length r) # p'" and r: "p' @ s = r"
      using eq ap by (simp_all add: lp_enc_def)
    have "length p' < length r"
      using r sne by (metis length_append length_greater_0_conv less_add_same_cancel1)
    then show ?thesis
      by (simp add: p lp_frame_def n)
  qed
  have "lp_enc r \<noteq> []"
    by (simp add: lp_enc_def)
  then show ?thesis
    unfolding frames_def using whole part by blast
qed

subsection \<open>The concrete session\<close>

lemma connect_fresh:
  "historian_connect all_created ''/tmp/historian.sock'' 4096 = Inr fresh_connection"
  by (simp add: historian_connect_def all_created_def fresh_connection_def)

lemma drain_first_read: "drain lp_frame [2, 1] = ([], Some [2, 1])"
  by (simp add: lp_frame_def)

lemma drain_second_read: "drain lp_frame [2, 1, 2, 1, 3] = ([[1, 2], [3]], Some [])"
  by (simp add: lp_frame_def)

lemma run_session:
  "run lp_frame session_events fresh_connection = Some ready_connection"
  by (simp add: session_events_def step_def react_def fresh_connection_def
      ready_connection_def ready_handle_def drain_first_read drain_second_read
      del: drain.simps)

lemma ready_connection_handle:
  "handle ready_connection = Some ready_handle"
  by (simp add: ready_connection_def)

lemma drain_late_read: "drain lp_frame [1, 7] = ([[7]], Some [])"
  by (simp add: lp_frame_def)

lemma run_shutdown:
  "run lp_frame shutdown_events ready_connection = Some released_connection"
  by (simp add: shutdown_events_def step_def react_def ready_connection_def ready_handle_def
      released_connection_def historian_free_begin_def historian_free_close_def
      historian_free_return_def end_session_def close_descriptor_def drain_late_read
      del: drain.simps)

lemma run_whole_session:
  "run lp_frame (session_events @ shutdown_events) fresh_connection = Some released_connection"
  using run_session run_shutdown by (simp add: run_append)

lemma run_late:
  "run lp_frame late_events released_connection = Some released_connection"
  by (simp add: late_events_def step_def react_def released_connection_def)

subsection \<open>The claims\<close>

text \<open>
  C2: take a handle that \<open>connect\<close> produced and any history of events, in which
  \<open>free\<close> may have been called at any point (never connected, between two attempts,
  in the middle of a session) and the workers may have gone on while it was under way.
  Once \<open>free\<close> has returned (the handle is released), no transport descriptor of the
  handle is open, and whatever happens afterwards, the callback is not invoked again and
  no descriptor is open. And \<open>free\<close> can be called and returns in every state where
  \<open>running\<close> is still set.
\<close>

theorem free_ends_callbacks_and_closes:
  assumes "historian_connect r tgt cb = Inr c0"
    and "run fr evs c0 = Some c"
  shows "(released c \<longrightarrow>
            open_descriptors c = {}
            \<and> (\<forall>evs' c'. run fr evs' c = Some c' \<longrightarrow>
                  deliveries c' = deliveries c \<and> open_descriptors c' = {}))
         \<and> (\<forall>h. handle c = Some h \<and> running h \<longrightarrow>
              (\<exists>c'. run fr free_events c = Some c' \<and> released c'
                 \<and> deliveries c' = deliveries c))"
proof -
  have inv: "consistent c"
    by (rule consistent_run [OF consistent_connect [OF assms(1)] assms(2)])
  have closed: "open_descriptors c = {}" if "released c"
    using inv that
    by (cases "handle c") (auto simp: consistent_def split: historian_state_t.splits)
  have after: "deliveries c' = deliveries c \<and> open_descriptors c' = {}"
    if "released c" and "run fr evs' c = Some c'" for evs' c'
  proof -
    have "c' = c"
      using inv that by (rule run_released)
    then show ?thesis
      using closed that(1) by simp
  qed
  have returns: "\<exists>c'. run fr free_events c = Some c' \<and> released c'
                   \<and> deliveries c' = deliveries c"
    if "handle c = Some h" and "running h" for h
    using inv that by (rule free_completes)
  show ?thesis
    using after closed returns by blast
qed

theorem free_ends_callbacks_and_closes_witness:
  "historian_connect all_created ''/tmp/historian.sock'' 4096 = Inr fresh_connection
   \<and> run lp_frame (session_events @ shutdown_events) fresh_connection
       = Some released_connection
   \<and> released released_connection
   \<and> deliveries released_connection = [[1, 2], [3], [7]]
   \<and> run lp_frame late_events released_connection = Some released_connection
   \<and> open_descriptors released_connection = {}"
proof -
  have gone: "released released_connection"
    by (simp add: released_connection_def)
  have d: "deliveries released_connection = [[1, 2], [3], [7]]"
    by (simp add: released_connection_def)
  have "open_descriptors released_connection = {}
        \<and> (\<forall>evs' c'. run lp_frame evs' released_connection = Some c' \<longrightarrow>
              deliveries c' = deliveries released_connection \<and> open_descriptors c' = {})"
    using free_ends_callbacks_and_closes [OF connect_fresh run_whole_session] gone by blast
  then show ?thesis
    using connect_fresh run_whole_session gone d run_late by simp
qed

text \<open>
  C3: within one connected session (the handle is in \<open>CONNECTED_READY\<close>, the receive
  buffer empty), let the records \<open>rs\<close>, which the framing rule decodes, arrive on the
  transport in any sequence \<open>cs\<close> of reads. Then the receive loop invokes the callback
  exactly once per record and in arrival order: the deliveries grow by exactly \<open>rs\<close>.
\<close>

theorem records_delivered_once_in_order:
  assumes "handle c = Some h"
    and "connection_state h = CONNECTED_READY"
    and "receive_buffer c = []"
    and "\<forall>e \<in> set rs. frames fr enc e"
    and "\<forall>k \<in> set cs. k \<noteq> []"
    and "concat cs = encode enc rs"
  shows "\<exists>c'. run fr (map Received cs) c = Some c'
           \<and> deliveries c' = deliveries c @ rs
           \<and> length (deliveries c') = length (deliveries c) + length rs"
proof -
  have "pending enc (receive_buffer c) rs"
  proof (cases rs)
    case Nil
    then show ?thesis
      using assms(3) by (simp add: pending_def)
  next
    case (Cons r rs')
    then have "enc r \<noteq> []"
      using assms(4) by (simp add: frames_def)
    then show ?thesis
      using assms(3) Cons by (simp add: pending_def)
  qed
  moreover have "receive_buffer c @ concat cs = encode enc rs"
    using assms(3,6) by simp
  ultimately obtain c' where "run fr (map Received cs) c = Some c'"
    and "deliveries c' = deliveries c @ rs"
    using run_received [OF assms(4) assms(1) assms(2) assms(5)] by blast
  then show ?thesis
    by simp
qed

theorem records_delivered_once_in_order_witness:
  "handle ready_connection = Some ready_handle
   \<and> connection_state ready_handle = CONNECTED_READY
   \<and> receive_buffer ready_connection = []
   \<and> concat [[1], [7, 2, 8], [9]] = encode lp_enc [[7], [8, 9]]
   \<and> (\<exists>c'. run lp_frame (map Received [[1], [7, 2, 8], [9]]) ready_connection = Some c'
          \<and> deliveries c' = [[1, 2], [3], [7], [8, 9]])"
proof -
  have s: "connection_state ready_handle = CONNECTED_READY"
    by (simp add: ready_handle_def)
  have b: "receive_buffer ready_connection = []"
    by (simp add: ready_connection_def)
  have f: "\<forall>e \<in> set [[7], [8, 9]]. frames lp_frame lp_enc e"
    by (simp add: lp_frames)
  have k: "\<forall>k \<in> set [[1], [7, 2, 8], [9 :: byte]]. k \<noteq> []"
    by simp
  have e: "concat [[1], [7, 2, 8], [9]] = encode lp_enc [[7], [8, 9]]"
    by (simp add: encode_def lp_enc_def)
  have d: "deliveries ready_connection = [[1, 2], [3]]"
    by (simp add: ready_connection_def)
  show ?thesis
    using ready_connection_handle s b f k e d
      records_delivered_once_in_order [OF ready_connection_handle s b f k e]
    by auto
qed



text \<open>
  C5: \<open>connect\<close> fails, with \<open>AllocationError\<close>, exactly when the handle, its
  synchronisation primitives or its worker thread cannot be created. When they can, it
  returns a handle, and transport-open attempts that fail afterwards leave that handle as
  it is, ready for the next attempt: an endpoint that cannot be reached is no failure of
  \<open>connect\<close>.
\<close>

theorem connect_fails_iff_allocation_fails:
  "(historian_connect r tgt cb = Inl AllocationError)
     = (\<not> handle_created r \<or> \<not> primitives_created r \<or> thread_created r = None)
   \<and> (handle_created r \<and> primitives_created r \<and> thread_created r \<noteq> None \<longrightarrow>
        (\<exists>c. historian_connect r tgt cb = Inr c
           \<and> run fr [OpenFailure, OpenFailure, OpenFailure] c = Some c))"
  by (auto simp: historian_connect_def step_def react_def split: option.splits)

theorem connect_fails_iff_allocation_fails_witness:
  "handle_created all_created \<and> primitives_created all_created
   \<and> thread_created all_created \<noteq> None
   \<and> historian_connect all_created ''/tmp/historian.sock'' 4096 \<noteq> Inl AllocationError
   \<and> (\<exists>c :: byte list connection.
        historian_connect all_created ''/tmp/historian.sock'' 4096 = Inr c
        \<and> run lp_frame [OpenFailure, OpenFailure, OpenFailure] c = Some c)"
  using connect_fails_iff_allocation_fails
    [of all_created "''/tmp/historian.sock''" 4096 lp_frame]
  by (simp add: all_created_def)

end
